theory Spec2Isabelle
  imports Complex_Main "HOL-Library.Monad_Syntax"
begin

section \<open>Decimal arithmetic\<close>

text \<open>
  Prices and the average traded price are Python \<open>Decimal\<close> values.  A \<open>Decimal\<close> is
  modelled by the rational number it denotes.  Every arithmetic operation of the
  \<open>decimal\<close> module rounds its exact result to the precision of the context: the
  default context has 28 significant digits and rounds half to even.  The exponent
  limits of the context (\<open>Emin\<close>, \<open>Emax\<close>) are far from every value of this program and
  are left out.

  A \<open>DecimalField(max_digits=10, decimal_places=2)\<close> column keeps two decimal places:
  on \<open>save()\<close> the value is quantized to a multiple of \<open>0.01\<close> (Django's
  \<open>format_number\<close>, which rounds with the context's rounding mode, half to even).
  The object in memory keeps the value it had.
\<close>

definition round_half_even :: "rat \<Rightarrow> int" where
  "round_half_even x =
     (let f = \<lfloor>x\<rfloor>; d = x - of_int f
      in if d < 1 / 2 then f
         else if 1 / 2 < d then f + 1
         else if even f then f else f + 1)"

definition pow10 :: "int \<Rightarrow> rat" where
  "pow10 e = (if 0 \<le> e then 10 ^ nat e else 1 / 10 ^ nat (- e))"

function dec_norm_down :: "rat \<Rightarrow> int \<Rightarrow> rat \<times> int" where
  "dec_norm_down m e =
     (if 10 ^ 28 \<le> m then dec_norm_down (m / 10) (e + 1) else (m, e))"
  by pat_completeness auto
termination
proof (relation "measure (\<lambda>(m, e). nat \<lfloor>m\<rfloor>)")
  show "wf (measure (\<lambda>(m :: rat, e :: int). nat \<lfloor>m\<rfloor>))" by simp
next
  fix m :: rat and e :: int
  assume big: "10 ^ 28 \<le> m"
  then have pos: "0 < m" by (simp add: less_le_trans [of 0 "10 ^ 28" m])
  have "m / 10 \<le> m - 1" using big by simp
  then have "\<lfloor>m / 10\<rfloor> \<le> \<lfloor>m - 1\<rfloor>" by (rule floor_mono)
  then have "\<lfloor>m / 10\<rfloor> < \<lfloor>m\<rfloor>" by simp
  moreover have "0 < \<lfloor>m\<rfloor>" using big by (simp add: less_le_trans [of 0 "10 ^ 28" m])
  ultimately show "((m / 10, e + 1), (m, e)) \<in> measure (\<lambda>(m, e). nat \<lfloor>m\<rfloor>)"
    by simp
qed

function dec_norm_up :: "rat \<Rightarrow> int \<Rightarrow> rat \<times> int" where
  "dec_norm_up m e =
     (if 0 < m \<and> m < 10 ^ 27 then dec_norm_up (m * 10) (e - 1) else (m, e))"
  by pat_completeness auto
termination
proof (relation "measure (\<lambda>(m, e). nat \<lceil>10 ^ 27 / m\<rceil>)")
  show "wf (measure (\<lambda>(m :: rat, e :: int). nat \<lceil>10 ^ 27 / m\<rceil>))" by simp
next
  fix m :: rat and e :: int
  assume a: "0 < m \<and> m < 10 ^ 27"
  define y where "y = 10 ^ 27 / m"
  have y1: "1 < y" using a by (simp add: y_def)
  have c2: "2 \<le> \<lceil>y\<rceil>" using y1 by (simp add: le_ceiling_iff)
  have "y / 10 \<le> of_int \<lceil>y\<rceil> / 10" by (simp add: le_of_int_ceiling)
  also have "\<dots> \<le> of_int (\<lceil>y\<rceil> - 1)"
  proof -
    have "(2 :: rat) \<le> of_int \<lceil>y\<rceil>" using c2 by linarith
    then have "of_int \<lceil>y\<rceil> / 10 \<le> (of_int \<lceil>y\<rceil> :: rat) - 1" by linarith
    then show ?thesis by (simp only: of_int_diff of_int_1)
  qed
  finally have "y / 10 \<le> of_int (\<lceil>y\<rceil> - 1)" .
  then have "\<lceil>y / 10\<rceil> \<le> \<lceil>y\<rceil> - 1" by (rule ceiling_le)
  then have "nat \<lceil>y / 10\<rceil> < nat \<lceil>y\<rceil>" using c2 by linarith
  moreover have "y / 10 = 10 ^ 27 / (m * 10)" by (simp add: y_def)
  ultimately have "nat \<lceil>10 ^ 27 / (m * 10)\<rceil> < nat \<lceil>10 ^ 27 / m\<rceil>"
    by (simp only: y_def)
  then show "((m * 10, e - 1), (m, e)) \<in> measure (\<lambda>(m, e). nat \<lceil>10 ^ 27 / m\<rceil>)"
    by (simp only: in_measure split_conv)
qed

declare dec_norm_down.simps [simp del] dec_norm_up.simps [simp del]

definition dec_round :: "rat \<Rightarrow> rat" where
  "dec_round x =
     (if x = 0 then 0
      else case dec_norm_down \<bar>x\<bar> 0 of (m1, e1) \<Rightarrow>
           case dec_norm_up m1 e1 of (m, e) \<Rightarrow>
             sgn x * of_int (round_half_even m) * pow10 e)"

definition dec_mul :: "rat \<Rightarrow> rat \<Rightarrow> rat" where
  "dec_mul x y = dec_round (x * y)"

definition dec_add :: "rat \<Rightarrow> rat \<Rightarrow> rat" where
  "dec_add x y = dec_round (x + y)"

definition dec_div :: "rat \<Rightarrow> rat \<Rightarrow> rat" where
  "dec_div x y = dec_round (x / y)"

definition quantize2 :: "rat \<Rightarrow> rat" where
  "quantize2 x = of_int (round_half_even (x * 100)) / 100"


section \<open>The persistent model\<close>

text \<open>
  \<open>shared/models/order.py\<close> and \<open>shared/models/trade.py\<close>.  A UUID is modelled by a
  natural number.  The status is the string stored in the \<open>status\<close> column; its six
  choices are the constructors of \<open>status\<close>.  Of the timestamps only \<open>created_at\<close> of
  an order (read by the \<open>order_by\<close> clauses) and the settlement timestamp of a trade are
  kept; \<open>updated_at\<close>, \<open>execution_timestamp\<close> and \<open>user_id\<close> take part in no
  decision of the code and are left out.  Logging is left out.

  A table is the list of its rows.  \<open>save()\<close> writes the row of the object's primary
  key (an update when the key is present, an insert otherwise); the two decimal columns
  are stored with two decimal places.  Failures of the database itself are not modelled.
\<close>

datatype status = PENDING | ACTIVE | PARTIALLY_FILLED | FILLED | CANCELLED | REJECTED

datatype exn = ValueError | KeyError

type_synonym uuid = nat

record Trade =
  trade_id :: uuid
  price :: rat
  quantity :: int
  bid_order :: uuid
  ask_order :: uuid
  is_settled :: bool
  settlement_timestamp :: "nat option"

record Order =
  order_id :: uuid
  side :: int
  quantity :: int
  price :: rat
  remaining_quantity :: int
  traded_quantity :: int
  average_traded_price :: rat
  status :: status
  is_active :: bool
  created_at :: nat

definition to_row :: "Order \<Rightarrow> Order" where
  "to_row self = self\<lparr>price := quantize2 (price self),
                       average_traded_price := quantize2 (average_traded_price self)\<rparr>"

fun upsert :: "Order \<Rightarrow> Order list \<Rightarrow> Order list" where
  "upsert row [] = [row]"
| "upsert row (r # rs) =
     (if order_id r = order_id row then row # rs else r # upsert row rs)"

definition save :: "Order \<Rightarrow> Order list \<Rightarrow> Order list" where
  "save self tbl = upsert (to_row self) tbl"

definition mark_as_filled :: "Order \<Rightarrow> Order list \<Rightarrow> Order \<times> Order list" where
  "mark_as_filled self tbl =
     (let self' = self\<lparr>status := FILLED, is_active := False, remaining_quantity := 0\<rparr>
      in (self', save self' tbl))"

definition mark_as_cancelled :: "Order \<Rightarrow> Order list \<Rightarrow> Order \<times> Order list" where
  "mark_as_cancelled self tbl =
     (let self' = self\<lparr>status := CANCELLED, is_active := False, remaining_quantity := 0\<rparr>
      in (self', save self' tbl))"

text \<open>
  \<open>update_trade\<close> returns the exception it raised (if any), the object and the table
  as the call leaves them.
\<close>

definition update_trade ::
  "int \<Rightarrow> rat \<Rightarrow> Order \<Rightarrow> Order list \<Rightarrow> exn option \<times> Order \<times> Order list" where
  "update_trade trade_quantity trade_price self tbl =
     (if trade_quantity > remaining_quantity self then (Some ValueError, self, tbl)
      else
        let s1 = self\<lparr>remaining_quantity := remaining_quantity self - trade_quantity,
                       traded_quantity := traded_quantity self + trade_quantity\<rparr>;
            s2 = (if traded_quantity s1 > 0
                  then let total_value =
                             dec_add (dec_mul (average_traded_price s1)
                                        (of_int (traded_quantity s1 - trade_quantity)))
                                     (dec_mul trade_price (of_int trade_quantity))
                       in s1\<lparr>average_traded_price :=
                               dec_div total_value (of_int (traded_quantity s1))\<rparr>
                  else s1);
            (s3, tbl3) = (if remaining_quantity s2 = 0 then mark_as_filled s2 tbl
                          else if traded_quantity s2 > 0
                               then (s2\<lparr>status := PARTIALLY_FILLED\<rparr>, tbl)
                               else (s2, tbl))
        in (None, s3, save s3 tbl3))"

text \<open>
  \<open>Trade.objects.create\<close>: the new trade gets a fresh identifier (the \<open>uuid4\<close> default,
  modelled by the number of rows so far), is unsettled, and is inserted.
\<close>

definition Trade_create ::
  "rat \<Rightarrow> int \<Rightarrow> Order \<Rightarrow> Order \<Rightarrow> Trade list \<Rightarrow> Trade \<times> Trade list" where
  "Trade_create p q bid ask tbl =
     (let trade = \<lparr>trade_id = length tbl, price = p, quantity = q,
                    bid_order = order_id bid, ask_order = order_id ask,
                    is_settled = False, settlement_timestamp = None\<rparr>
      in (trade, tbl @ [trade\<lparr>Trade.price := quantize2 p\<rparr>]))"

section \<open>The order book\<close>

text \<open>
  \<open>services/order_management/order_book.py\<close>.  The two dictionaries of price levels are
  maps from a price to the list of the orders resting there, the sets of prices are
  sets.  The book holds one object per order: the entry of \<open>order_lookup\<close> and the
  element of the level list are the same Python object, so the lookup is modelled with
  the price and the side only and the object is read from its level.  The lock is
  reentrant and held by the one caller that is modelled.
\<close>

record OrderBook =
  bids :: "rat \<rightharpoonup> Order list"
  asks :: "rat \<rightharpoonup> Order list"
  order_lookup :: "uuid \<rightharpoonup> rat \<times> int"
  best_bid :: "rat option"
  best_ask :: "rat option"
  bid_prices :: "rat set"
  ask_prices :: "rat set"
  orders_processed :: nat
  trades_created :: nat

definition OrderBook_init :: OrderBook where
  "OrderBook_init = \<lparr>bids = Map.empty, asks = Map.empty, order_lookup = Map.empty,
                      best_bid = None, best_ask = None, bid_prices = {}, ask_prices = {},
                      orders_processed = 0, trades_created = 0\<rparr>"


definition add_sell_order :: "Order \<Rightarrow> OrderBook \<Rightarrow> OrderBook" where
  "add_sell_order order b =
     (let p = price order;
          b1 = (if asks b p = None
                then b\<lparr>asks := (asks b)(p \<mapsto> []), ask_prices := insert p (ask_prices b)\<rparr>
                else b);
          b2 = b1\<lparr>asks := (asks b1)(p \<mapsto> the (asks b1 p) @ [order]),
                   order_lookup := (order_lookup b1)(order_id order \<mapsto> (p, - 1))\<rparr>
      in if best_ask b2 = None \<or> p < the (best_ask b2) then b2\<lparr>best_ask := Some p\<rparr> else b2)"

definition update_best_bid :: "OrderBook \<Rightarrow> OrderBook" where
  "update_best_bid b =
     b\<lparr>best_bid := (if bid_prices b \<noteq> {} then Some (Max (bid_prices b)) else None)\<rparr>"

definition update_best_ask :: "OrderBook \<Rightarrow> OrderBook" where
  "update_best_ask b =
     b\<lparr>best_ask := (if ask_prices b \<noteq> {} then Some (Min (ask_prices b)) else None)\<rparr>"


text \<open>
  The state of the service: the global \<open>order_book\<close>, the two tables, and the
  daemon threads that a request handler has started and that have not run yet.
\<close>

datatype task = ProcessOrder Order | ProcessModifiedOrder Order

record System =
  order_book :: OrderBook
  Order_objects :: "Order list"
  Trade_objects :: "Trade list"
  threads :: "task list"

text \<open>The truth value of an \<open>Optional[Decimal]\<close>: \<open>None\<close> and zero are false.\<close>

definition truthy :: "rat option \<Rightarrow> bool" where
  "truthy d = (case d of None \<Rightarrow> False | Some v \<Rightarrow> v \<noteq> 0)"



text \<open>
  One pass through the body of the \<open>while\<close> loop of \<open>_match_buy_order\<close> once the head
  \<open>sell_order\<close> of the best level has been read (\<open>rest\<close> are the orders behind it).
  The result carries the exception that ended the pass, if any.
\<close>

definition match_buy_fill ::
  "System \<Rightarrow> Order \<Rightarrow> Order \<Rightarrow> Order list \<Rightarrow> Trade list
     \<Rightarrow> exn option \<times> System \<times> Order \<times> Trade list" where
  "match_buy_fill s buy_order sell_order rest trades =
     (let b = order_book s;
          ba = the (best_ask b);
          trade_quantity = min (remaining_quantity buy_order) (remaining_quantity sell_order);
          (trade, ttbl) = Trade_create ba trade_quantity buy_order sell_order (Trade_objects s);
          trades1 = trades @ [trade];
          s1 = s\<lparr>Trade_objects := ttbl\<rparr>
      in case update_trade trade_quantity ba buy_order (Order_objects s1) of
           (Some e, buy1, tbl1) \<Rightarrow> (Some e, s1\<lparr>Order_objects := tbl1\<rparr>, buy1, trades1)
         | (None, buy1, tbl1) \<Rightarrow>
             (case update_trade trade_quantity ba sell_order tbl1 of
                (Some e, sell1, tbl2) \<Rightarrow> (Some e, s1\<lparr>Order_objects := tbl2\<rparr>, buy1, trades1)
              | (None, sell1, tbl2) \<Rightarrow>
                  let b1 = b\<lparr>asks := (asks b)(ba \<mapsto> sell1 # rest)\<rparr>;
                      s2 = s1\<lparr>Order_objects := tbl2\<rparr>
                  in if remaining_quantity sell1 = 0
                     then let b2 = b1\<lparr>asks := (asks b1)(ba \<mapsto> rest)\<rparr>
                          in if order_lookup b2 (order_id sell1) = None
                             then (Some KeyError, s2\<lparr>order_book := b2\<rparr>, buy1, trades1)
                             else let b3 = b2\<lparr>order_lookup :=
                                                (order_lookup b2)(order_id sell1 := None)\<rparr>;
                                      b4 = (if rest = []
                                            then update_best_ask
                                                   (b3\<lparr>asks := (asks b3)(ba := None),
                                                       ask_prices := ask_prices b3 - {ba}\<rparr>)
                                            else b3)
                                  in (None, s2\<lparr>order_book := b4\<rparr>, buy1, trades1)
                     else (None, s2\<lparr>order_book := b1\<rparr>, buy1, trades1)))"

definition match_sell_fill ::
  "System \<Rightarrow> Order \<Rightarrow> Order \<Rightarrow> Order list \<Rightarrow> Trade list
     \<Rightarrow> exn option \<times> System \<times> Order \<times> Trade list" where
  "match_sell_fill s sell_order buy_order rest trades =
     (let b = order_book s;
          bb = the (best_bid b);
          trade_quantity = min (remaining_quantity sell_order) (remaining_quantity buy_order);
          (trade, ttbl) = Trade_create bb trade_quantity buy_order sell_order (Trade_objects s);
          trades1 = trades @ [trade];
          s1 = s\<lparr>Trade_objects := ttbl\<rparr>
      in case update_trade trade_quantity bb sell_order (Order_objects s1) of
           (Some e, sell1, tbl1) \<Rightarrow> (Some e, s1\<lparr>Order_objects := tbl1\<rparr>, sell1, trades1)
         | (None, sell1, tbl1) \<Rightarrow>
             (case update_trade trade_quantity bb buy_order tbl1 of
                (Some e, buy1, tbl2) \<Rightarrow> (Some e, s1\<lparr>Order_objects := tbl2\<rparr>, sell1, trades1)
              | (None, buy1, tbl2) \<Rightarrow>
                  let b1 = b\<lparr>bids := (bids b)(bb \<mapsto> buy1 # rest)\<rparr>;
                      s2 = s1\<lparr>Order_objects := tbl2\<rparr>
                  in if remaining_quantity buy1 = 0
                     then let b2 = b1\<lparr>bids := (bids b1)(bb \<mapsto> rest)\<rparr>
                          in if order_lookup b2 (order_id buy1) = None
                             then (Some KeyError, s2\<lparr>order_book := b2\<rparr>, sell1, trades1)
                             else let b3 = b2\<lparr>order_lookup :=
                                                (order_lookup b2)(order_id buy1 := None)\<rparr>;
                                      b4 = (if rest = []
                                            then update_best_bid
                                                   (b3\<lparr>bids := (bids b3)(bb := None),
                                                       bid_prices := bid_prices b3 - {bb}\<rparr>)
                                            else b3)
                                  in (None, s2\<lparr>order_book := b4\<rparr>, sell1, trades1)
                     else (None, s2\<lparr>order_book := b1\<rparr>, sell1, trades1)))"

text \<open>
  The loops.  They need not end on every book (a price left in \<open>ask_prices\<close> without
  orders at that level is looked up again and again), so a run that does not return is
  the value \<open>None\<close>.
\<close>

definition buy_crosses :: "OrderBook \<Rightarrow> Order \<Rightarrow> bool" where
  "buy_crosses b buy_order \<longleftrightarrow>
     remaining_quantity buy_order > 0 \<and> truthy (best_ask b)
       \<and> price buy_order \<ge> the (best_ask b)"

definition sell_crosses :: "OrderBook \<Rightarrow> Order \<Rightarrow> bool" where
  "sell_crosses b sell_order \<longleftrightarrow>
     remaining_quantity sell_order > 0 \<and> truthy (best_bid b)
       \<and> price sell_order \<le> the (best_bid b)"

definition level :: "(rat \<rightharpoonup> Order list) \<Rightarrow> rat option \<Rightarrow> Order list" where
  "level d best = (case d (the best) of None \<Rightarrow> [] | Some os \<Rightarrow> os)"

partial_function (option) match_buy_order ::
  "System \<Rightarrow> Order \<Rightarrow> Trade list \<Rightarrow> (exn option \<times> System \<times> Order \<times> Trade list) option" where
  "match_buy_order s buy_order trades =
     (if buy_crosses (order_book s) buy_order
      then (case level (asks (order_book s)) (best_ask (order_book s)) of
              [] \<Rightarrow> match_buy_order (s\<lparr>order_book := update_best_ask (order_book s)\<rparr>)
                      buy_order trades
            | sell_order # rest \<Rightarrow>
                (case match_buy_fill s buy_order sell_order rest trades of
                   (Some e, s', buy', trades') \<Rightarrow> Some (Some e, s', buy', trades')
                 | (None, s', buy', trades') \<Rightarrow> match_buy_order s' buy' trades'))
      else Some (None, s, buy_order, trades))"

partial_function (option) match_sell_order ::
  "System \<Rightarrow> Order \<Rightarrow> Trade list \<Rightarrow> (exn option \<times> System \<times> Order \<times> Trade list) option" where
  "match_sell_order s sell_order trades =
     (if sell_crosses (order_book s) sell_order
      then (case level (bids (order_book s)) (best_bid (order_book s)) of
              [] \<Rightarrow> match_sell_order (s\<lparr>order_book := update_best_bid (order_book s)\<rparr>)
                      sell_order trades
            | buy_order # rest \<Rightarrow>
                (case match_sell_fill s sell_order buy_order rest trades of
                   (Some e, s', sell', trades') \<Rightarrow> Some (Some e, s', sell', trades')
                 | (None, s', sell', trades') \<Rightarrow> match_sell_order s' sell' trades'))
      else Some (None, s, sell_order, trades))"

declare match_buy_order.simps [code] match_sell_order.simps [code]





section \<open>The request handlers\<close>

text \<open>
  \<open>services/order_management/views.py\<close> and \<open>services/trade_service/views.py\<close>.  A
  request is given by its parsed fields; a response is its status code and its body.
  \<open>threading.Thread(...).start()\<close> appends the task to \<open>threads\<close>; \<open>run_thread\<close> runs the
  oldest one.  The handlers return without waiting for the thread.
\<close>

record Entry =
  entry_order_id :: uuid
  entry_price :: rat
  entry_quantity :: int
  total_quantity :: int
  entry_traded_quantity :: int
  entry_status :: status
  entry_created_at :: nat

datatype body =
    Error string
  | SerializerErrors
  | Placed uuid string status string int int int rat
  | Modified string uuid rat status
  | Cancelled string uuid
  | Settled string Trade
  | Snapshot "Entry list" "Entry list" int nat nat

datatype response = Response nat body

text \<open>
  The float \<open>0.01\<close> that \<open>min_value=0.01\<close> hands to the validator is the double nearest
  to one hundredth; a \<open>Decimal\<close> is compared with it exactly.
\<close>

definition float_0_01 :: rat where
  "float_0_01 = 5764607523034235 / 2 ^ 59"

definition decimal_field_valid :: "rat \<Rightarrow> bool" where
  "decimal_field_valid p \<longleftrightarrow>
     p * 100 = of_int \<lfloor>p * 100\<rfloor> \<and> \<bar>p\<bar> < 10 ^ 8 \<and> float_0_01 \<le> p \<and> 0 < p"








text \<open>
  \<open>TradeSettlementView.post\<close>.  The instance in memory is the row with the attributes
  the handler adds to it; \<open>save()\<close> writes the fields of the model.
\<close>

record TradeInstance = Trade +
  settled_at :: "nat option"

fun update_trade_row :: "Trade \<Rightarrow> Trade list \<Rightarrow> Trade list" where
  "update_trade_row row [] = [row]"
| "update_trade_row row (r # rs) =
     (if trade_id r = trade_id row then row # rs else r # update_trade_row row rs)"

definition Trade_save :: "TradeInstance \<Rightarrow> Trade list \<Rightarrow> Trade list" where
  "Trade_save self tbl =
     update_trade_row ((Trade.truncate self)\<lparr>Trade.price := quantize2 (Trade.price self)\<rparr>) tbl"

definition mark_as_settled :: "nat \<Rightarrow> Trade \<Rightarrow> Trade list \<Rightarrow> Trade \<times> Trade list" where
  "mark_as_settled now self tbl =
     (let self' = self\<lparr>is_settled := True, settlement_timestamp := Some now\<rparr>
      in (self', Trade_save (Trade.extend self' (TradeInstance.fields None)) tbl))"

definition settle_post :: "uuid \<Rightarrow> nat \<Rightarrow> System \<Rightarrow> response \<times> System" where
  "settle_post tid now s =
     (case find (\<lambda>r. trade_id r = tid) (Trade_objects s) of
        None \<Rightarrow> (Response 404 (Error ''Trade not found''), s)
      | Some row \<Rightarrow>
          if is_settled row then (Response 400 (Error ''Trade already settled''), s)
          else let trade = Trade.extend row (TradeInstance.fields None);
                   trade1 = trade\<lparr>is_settled := True\<rparr>;
                   trade2 = trade1\<lparr>settled_at := Some now\<rparr>;
                   s1 = s\<lparr>Trade_objects := Trade_save trade2 (Trade_objects s)\<rparr>
               in (Response 200 (Settled ''Trade settled successfully'' (Trade.truncate trade2)),
                   s1))"

text \<open>\<open>OrderBookSnapshotView.get\<close>, after \<open>depth\<close> has been parsed as an integer.\<close>

definition entry_of :: "Order \<Rightarrow> Entry" where
  "entry_of order =
     \<lparr>entry_order_id = order_id order, entry_price = price order,
      entry_quantity = remaining_quantity order, total_quantity = quantity order,
      entry_traded_quantity = traded_quantity order, entry_status = status order,
      entry_created_at = created_at order\<rparr>"

definition snapshot_buy_orders :: "int \<Rightarrow> Order list \<Rightarrow> Order list" where
  "snapshot_buy_orders depth tbl =
     take (nat depth)
       (sort_key (\<lambda>r. - price r) (sort_key created_at
          (filter (\<lambda>r. side r = 1 \<and> (status r = ACTIVE \<or> status r = PARTIALLY_FILLED)
                       \<and> remaining_quantity r > 0) tbl)))"

definition snapshot_sell_orders :: "int \<Rightarrow> Order list \<Rightarrow> Order list" where
  "snapshot_sell_orders depth tbl =
     take (nat depth)
       (sort_key price (sort_key created_at
          (filter (\<lambda>r. side r = - 1 \<and> (status r = ACTIVE \<or> status r = PARTIALLY_FILLED)
                       \<and> remaining_quantity r > 0) tbl)))"

definition snapshot_get :: "int \<Rightarrow> System \<Rightarrow> response" where
  "snapshot_get depth s =
     (if depth < 1 \<or> depth > 20 then Response 400 (Error ''Depth must be between 1 and 20'')
      else let buy_orders = snapshot_buy_orders depth (Order_objects s);
               sell_orders = snapshot_sell_orders depth (Order_objects s)
           in Response 200 (Snapshot (map entry_of buy_orders) (map entry_of sell_orders)
                              depth (length buy_orders) (length sell_orders)))"

text \<open>The rows that the two queries of the snapshot select for a side.\<close>

definition snapshot_row :: "int \<Rightarrow> Order \<Rightarrow> bool" where
  "snapshot_row sd r \<longleftrightarrow>
     side r = sd \<and> (status r = ACTIVE \<or> status r = PARTIALLY_FILLED) \<and> remaining_quantity r > 0"

text \<open>
  The quantity of a price level in the words of the specification: the sum of
  \<open>remaining_quantity\<close> over the persisted active orders of that side and price.
\<close>

definition spec_level_quantity :: "int \<Rightarrow> rat \<Rightarrow> Order list \<Rightarrow> int" where
  "spec_level_quantity sd p tbl =
     sum_list (map remaining_quantity
                 (filter (\<lambda>r. side r = sd \<and> price r = p \<and> is_active r) tbl))"

section \<open>Well-formed books\<close>

text \<open>
  The shape that every operation of the book keeps: the set of prices of a side is the
  finite set of the keys of its dictionary, no level is empty, a level holds each order
  once, an order rests at its own (positive) price and is entered in \<open>order_lookup\<close>
  with that price and its side, and the best price of a side is the extreme of its set
  of prices.
\<close>

definition levels_ok ::
  "(rat \<rightharpoonup> Order list) \<Rightarrow> rat set \<Rightarrow> (uuid \<rightharpoonup> rat \<times> int) \<Rightarrow> int \<Rightarrow> bool" where
  "levels_ok d ps lk sd \<longleftrightarrow>
     finite ps \<and> (\<forall>p. (d p \<noteq> None) = (p \<in> ps)) \<and> (\<forall>p \<in> ps. 0 < p)
     \<and> (\<forall>p os. d p = Some os \<longrightarrow>
            os \<noteq> [] \<and> distinct (map order_id os)
            \<and> (\<forall>y \<in> set os. price y = p \<and> lk (order_id y) = Some (p, sd)))"

definition book_ok :: "OrderBook \<Rightarrow> bool" where
  "book_ok b \<longleftrightarrow>
     levels_ok (bids b) (bid_prices b) (order_lookup b) 1
     \<and> levels_ok (asks b) (ask_prices b) (order_lookup b) (- 1)
     \<and> best_bid b = (if bid_prices b = {} then None else Some (Max (bid_prices b)))
     \<and> best_ask b = (if ask_prices b = {} then None else Some (Min (ask_prices b)))"

text \<open>The number of orders resting on a side.\<close>

definition level_count :: "(rat \<rightharpoonup> Order list) \<Rightarrow> rat set \<Rightarrow> nat" where
  "level_count d ps = (\<Sum>p \<in> ps. length (the (d p)))"

text \<open>The object that \<open>update_trade\<close> leaves behind; it does not depend on the table.\<close>

definition after_trade :: "int \<Rightarrow> rat \<Rightarrow> Order \<Rightarrow> Order" where
  "after_trade q p self = fst (snd (update_trade q p self []))"

text \<open>The variants of the two matching loops.\<close>

definition buy_measure :: "System \<Rightarrow> Order \<Rightarrow> nat" where
  "buy_measure s x =
     2 * level_count (asks (order_book s)) (ask_prices (order_book s))
       + (if remaining_quantity x > 0 then 1 else 0)"

definition sell_measure :: "System \<Rightarrow> Order \<Rightarrow> nat" where
  "sell_measure s x =
     2 * level_count (bids (order_book s)) (bid_prices (order_book s))
       + (if remaining_quantity x > 0 then 1 else 0)"


text \<open>The row that is stored for a trade.\<close>

definition trade_row :: "Trade \<Rightarrow> Trade" where
  "trade_row t = t\<lparr>Trade.price := quantize2 (Trade.price t)\<rparr>"

text \<open>
  The orders that a state holds: the objects resting in the book, the rows of the
  table, and the objects handed to the threads that have not run yet.
\<close>

definition book_orders :: "OrderBook \<Rightarrow> Order set" where
  "book_orders b = {y. \<exists>p os. (bids b p = Some os \<or> asks b p = Some os) \<and> y \<in> set os}"

fun task_order :: "task \<Rightarrow> Order" where
  "task_order (ProcessOrder order) = order"
| "task_order (ProcessModifiedOrder order) = order"

definition all_orders :: "(Order \<Rightarrow> bool) \<Rightarrow> System \<Rightarrow> bool" where
  "all_orders P s \<longleftrightarrow>
     (\<forall>y \<in> book_orders (order_book s). P y) \<and> (\<forall>r \<in> set (Order_objects s). P r)
     \<and> (\<forall>t \<in> set (threads s). P (task_order t))"

text \<open>A price that the validation of a request lets through: positive, two decimals.\<close>

definition price_ok :: "Order \<Rightarrow> bool" where
  "price_ok y \<longleftrightarrow> 0 < price y \<and> quantize2 (price y) = price y"

text \<open>The invariants of an order.\<close>

definition qty_ok :: "Order \<Rightarrow> bool" where
  "qty_ok y \<longleftrightarrow> quantity y = remaining_quantity y + traded_quantity y"

definition status_ok :: "Order \<Rightarrow> bool" where
  "status_ok y \<longleftrightarrow>
     qty_ok y \<and> 0 \<le> remaining_quantity y \<and> 0 \<le> traded_quantity y
     \<and> ((status y = ACTIVE) = (traded_quantity y = 0 \<and> is_active y))
     \<and> (status y = PARTIALLY_FILLED \<longrightarrow>
           0 < traded_quantity y \<and> traded_quantity y < quantity y)
     \<and> (is_active y \<longrightarrow>
           (status y = PARTIALLY_FILLED)
             = (0 < traded_quantity y \<and> traded_quantity y < quantity y))"

section \<open>Example states\<close>

text \<open>Concrete orders, trades and states on which the theorems below are instantiated.\<close>

definition ex_trade :: Trade where
  "ex_trade = \<lparr>trade_id = 0, price = 101, quantity = 5, bid_order = 2, ask_order = 1,
               is_settled = False, settlement_timestamp = None\<rparr>"

definition ex_settle_sys :: System where
  "ex_settle_sys = \<lparr>order_book = OrderBook_init, Order_objects = [],
                    Trade_objects = [ex_trade], threads = []\<rparr>"

definition resting :: "uuid \<Rightarrow> int \<Rightarrow> int \<Rightarrow> rat \<Rightarrow> nat \<Rightarrow> Order" where
  "resting k sd q p t =
     \<lparr>order_id = k, side = sd, quantity = q, price = p, remaining_quantity = q,
      traded_quantity = 0, average_traded_price = 0, status = ACTIVE, is_active = True,
      created_at = t\<rparr>"

definition ex_snapshot_sys :: System where
  "ex_snapshot_sys =
     \<lparr>order_book = OrderBook_init,
      Order_objects = [resting 1 1 3 100 0, resting 2 1 4 100 1, resting 3 (- 1) 2 105 2],
      Trade_objects = [], threads = []\<rparr>"

definition ex_ask :: Order where
  "ex_ask = resting 1 (- 1) 5 101 0"


definition ex_match_sys :: System where
  "ex_match_sys = \<lparr>order_book = add_sell_order ex_ask OrderBook_init,
                   Order_objects = [ex_ask], Trade_objects = [], threads = []\<rparr>"






section \<open>Properties of the order model\<close>

lemma update_trade_ok:
  assumes "trade_quantity \<le> remaining_quantity self"
  shows "\<exists>self' tbl'. update_trade trade_quantity trade_price self tbl = (None, self', tbl')
           \<and> order_id self' = order_id self \<and> price self' = price self
           \<and> side self' = side self \<and> quantity self' = quantity self
           \<and> created_at self' = created_at self
           \<and> remaining_quantity self' = remaining_quantity self - trade_quantity
           \<and> traded_quantity self' = traded_quantity self + trade_quantity"
  using assms
  by (auto simp: update_trade_def mark_as_filled_def Let_def split: prod.splits)

text \<open>
  Claim C10.  A call of \<open>update_trade\<close> with a trade quantity strictly greater than the
  remaining quantity of the order raises \<open>ValueError\<close> and leaves the order object and
  the table of orders as they were: no field is changed and nothing is saved.
\<close>

theorem update_trade_excess_raises:
  assumes "trade_quantity > remaining_quantity self"
  shows "update_trade trade_quantity trade_price self tbl = (Some ValueError, self, tbl)"
  using assms by (simp add: update_trade_def)

theorem update_trade_excess_raises_witness:
  "(5 :: int) > remaining_quantity
       \<lparr>order_id = 7, side = 1, quantity = 10, price = 101, remaining_quantity = 3,
        traded_quantity = 7, average_traded_price = 100, status = PARTIALLY_FILLED,
        is_active = True, created_at = 0\<rparr>
   \<and> update_trade 5 (201 / 2)
       \<lparr>order_id = 7, side = 1, quantity = 10, price = 101, remaining_quantity = 3,
        traded_quantity = 7, average_traded_price = 100, status = PARTIALLY_FILLED,
        is_active = True, created_at = 0\<rparr> []
     = (Some ValueError,
        \<lparr>order_id = 7, side = 1, quantity = 10, price = 101, remaining_quantity = 3,
         traded_quantity = 7, average_traded_price = 100, status = PARTIALLY_FILLED,
         is_active = True, created_at = 0\<rparr>, [])"
  using update_trade_excess_raises [of
      "\<lparr>order_id = 7, side = 1, quantity = 10, price = 101, remaining_quantity = 3,
        traded_quantity = 7, average_traded_price = 100, status = PARTIALLY_FILLED,
        is_active = True, created_at = 0\<rparr>" 5 "201 / 2" "[]"]
  by simp


section \<open>Stored decimals\<close>

lemma round_half_even_of_int [simp]: "round_half_even (of_int n) = n"
  by (simp add: round_half_even_def)

lemma quantize2_of_int [simp]: "quantize2 (of_int n) = of_int n"
  using round_half_even_of_int [of "n * 100"]
  by (simp add: quantize2_def del: round_half_even_of_int)

lemma quantize2_numeral [simp]: "quantize2 (numeral n) = numeral n"
  using quantize2_of_int [of "numeral n"] by simp

lemma quantize2_zero [simp]: "quantize2 0 = 0"
  using quantize2_of_int [of 0] by simp

section \<open>Settlement of a trade\<close>

lemma settle_post_settled:
  assumes "find (\<lambda>r. trade_id r = tid) (Trade_objects s) = Some row" and "is_settled row"
  shows "settle_post tid now s = (Response 400 (Error ''Trade already settled''), s)"
  using assms by (simp add: settle_post_def)

text \<open>
  Claim C9.  The handler that settles a trade sets the flag \<open>is_settled\<close> and assigns
  the current time to an attribute \<open>settled_at\<close>, which is no field of the model: the
  row that is saved and the trade in the response keep \<open>settlement_timestamp = None\<close>.
  The method \<open>mark_as_settled\<close> of the model, which the handler does not call, sets
  \<open>settlement_timestamp\<close>.  Evaluated on a table with one unsettled trade, settled at
  time 42.
\<close>

theorem settle_post_timestamp_unset:
  "settle_post 0 42 ex_settle_sys =
     (Response 200 (Settled ''Trade settled successfully'' (ex_trade\<lparr>is_settled := True\<rparr>)),
      ex_settle_sys\<lparr>Trade_objects := [ex_trade\<lparr>is_settled := True\<rparr>]\<rparr>)
   \<and> settlement_timestamp (ex_trade\<lparr>is_settled := True\<rparr>) = None
   \<and> settlement_timestamp (fst (mark_as_settled 42 ex_trade [ex_trade])) = Some 42"
  by (simp add: settle_post_def ex_settle_sys_def ex_trade_def Trade_save_def mark_as_settled_def
        Trade.extend_def Trade.truncate_def TradeInstance.fields_def Let_def)


section \<open>The snapshot of the book\<close>

text \<open>
  Claim C6, as stated, fails.  The snapshot lists single orders, not price levels: with
  two active buy orders of 3 and 4 units at the price 100, depth 1 returns the older
  order alone with its own quantity 3, while the level holds 7 units.
\<close>

theorem snapshot_level_counterexample:
  "snapshot_get 1 ex_snapshot_sys =
     Response 200 (Snapshot [entry_of (resting 1 1 3 100 0)] [entry_of (resting 3 (- 1) 2 105 2)]
                     1 1 1)
   \<and> entry_quantity (entry_of (resting 1 1 3 100 0)) = 3
   \<and> spec_level_quantity 1 100 (Order_objects ex_snapshot_sys) = 7"
  by (simp add: snapshot_get_def snapshot_buy_orders_def snapshot_sell_orders_def
        ex_snapshot_sys_def resting_def spec_level_quantity_def entry_of_def)

text \<open>
  Claim C6, amended.  For every depth from 1 to 20 the snapshot answers 200 with, per
  side, the first \<open>depth\<close> persisted orders that have the side, status \<open>ACTIVE\<close> or
  \<open>PARTIALLY_FILLED\<close> and a positive remaining quantity, ordered by price (bids
  descending, asks ascending) and then by creation time; there are at most \<open>depth\<close>
  entries per side, and the quantity of an entry is the remaining quantity of its order.
\<close>

theorem snapshot_get_orders:
  assumes "1 \<le> depth" and "depth \<le> 20"
  shows "\<exists>bs ss. snapshot_get depth s =
             Response 200 (Snapshot (map entry_of bs) (map entry_of ss) depth
                             (length bs) (length ss))
           \<and> bs = take (nat depth) (sort_key (\<lambda>r. - price r) (sort_key created_at
                     (filter (snapshot_row 1) (Order_objects s))))
           \<and> ss = take (nat depth) (sort_key price (sort_key created_at
                     (filter (snapshot_row (- 1)) (Order_objects s))))
           \<and> length bs \<le> nat depth \<and> length ss \<le> nat depth
           \<and> set bs \<subseteq> {r \<in> set (Order_objects s). snapshot_row 1 r}
           \<and> set ss \<subseteq> {r \<in> set (Order_objects s). snapshot_row (- 1) r}
           \<and> sorted (rev (map price bs)) \<and> sorted (map price ss)
           \<and> map entry_quantity (map entry_of bs) = map remaining_quantity bs
           \<and> map entry_quantity (map entry_of ss) = map remaining_quantity ss"
proof -
  define bs where "bs = snapshot_buy_orders depth (Order_objects s)"
  define ss where "ss = snapshot_sell_orders depth (Order_objects s)"
  have resp: "snapshot_get depth s =
             Response 200 (Snapshot (map entry_of bs) (map entry_of ss) depth
                             (length bs) (length ss))"
    using assms by (simp add: snapshot_get_def bs_def ss_def Let_def)
  have bs_eq: "bs = take (nat depth) (sort_key (\<lambda>r. - price r) (sort_key created_at
                     (filter (snapshot_row 1) (Order_objects s))))"
    by (simp add: bs_def snapshot_buy_orders_def snapshot_row_def [abs_def])
  have ss_eq: "ss = take (nat depth) (sort_key price (sort_key created_at
                     (filter (snapshot_row (- 1)) (Order_objects s))))"
    by (simp add: ss_def snapshot_sell_orders_def snapshot_row_def [abs_def])
  have lb: "length bs \<le> nat depth" by (simp add: bs_eq)
  have ls: "length ss \<le> nat depth" by (simp add: ss_eq)
  have sb: "set bs \<subseteq> {r \<in> set (Order_objects s). snapshot_row 1 r}"
    unfolding bs_eq using set_take_subset by fastforce
  have sss: "set ss \<subseteq> {r \<in> set (Order_objects s). snapshot_row (- 1) r}"
    unfolding ss_eq using set_take_subset by fastforce
  have "sorted (map (\<lambda>r. - price r) bs)"
    unfolding bs_eq take_map [symmetric] by (rule sorted_wrt_take) (rule sorted_sort_key)
  then have ob: "sorted (rev (map price bs))"
    by (simp add: sorted_wrt_rev sorted_map sorted_wrt_map)
  have os: "sorted (map price ss)"
    unfolding ss_eq take_map [symmetric] by (rule sorted_wrt_take) (rule sorted_sort_key)
  have q: "\<And>xs. map entry_quantity (map entry_of xs) = map remaining_quantity xs"
    by (simp add: entry_of_def)
  show ?thesis using resp bs_eq ss_eq lb ls sb sss ob os q by blast
qed

theorem snapshot_get_orders_witness:
  "(1 :: int) \<le> 1 \<and> (1 :: int) \<le> 20
   \<and> (\<exists>bs ss. snapshot_get 1 ex_snapshot_sys =
                 Response 200 (Snapshot (map entry_of bs) (map entry_of ss) 1
                                 (length bs) (length ss))
              \<and> length bs \<le> nat 1 \<and> length ss \<le> nat 1
              \<and> sorted (rev (map price bs)) \<and> sorted (map price ss))"
proof -
  have h1: "(1 :: int) \<le> 1" and h2: "(1 :: int) \<le> 20" by simp_all
  from snapshot_get_orders [OF h1 h2, of ex_snapshot_sys]
  obtain bs ss where
    "snapshot_get 1 ex_snapshot_sys =
       Response 200 (Snapshot (map entry_of bs) (map entry_of ss) 1 (length bs) (length ss))"
    "length bs \<le> nat 1" "length ss \<le> nat 1"
    "sorted (rev (map price bs))" "sorted (map price ss)"
    by blast
  then show ?thesis using h1 h2 by blast
qed


section \<open>Lemmas on well-formed books\<close>

lemma levels_okD:
  assumes "levels_ok d ps lk sd" and "d p = Some os"
  shows "os \<noteq> []" and "distinct (map order_id os)" and "p \<in> ps" and "0 < p"
    and "\<And>y. y \<in> set os \<Longrightarrow> price y = p"
    and "\<And>y. y \<in> set os \<Longrightarrow> lk (order_id y) = Some (p, sd)"
proof -
  from assms have a: "os \<noteq> [] \<and> distinct (map order_id os)
      \<and> (\<forall>y \<in> set os. price y = p \<and> lk (order_id y) = Some (p, sd))"
    unfolding levels_ok_def by blast
  from assms have b: "p \<in> ps" unfolding levels_ok_def by (metis option.distinct(1))
  from assms b have c: "0 < p" unfolding levels_ok_def by blast
  show "os \<noteq> []" "distinct (map order_id os)" "p \<in> ps" "0 < p"
    "\<And>y. y \<in> set os \<Longrightarrow> price y = p"
    "\<And>y. y \<in> set os \<Longrightarrow> lk (order_id y) = Some (p, sd)"
    using a b c by blast+
qed

lemma levels_ok_finite: "levels_ok d ps lk sd \<Longrightarrow> finite ps"
  unfolding levels_ok_def by blast

lemma levels_ok_dom: "levels_ok d ps lk sd \<Longrightarrow> (d p \<noteq> None) = (p \<in> ps)"
  unfolding levels_ok_def by blast

lemma levels_ok_pos: "levels_ok d ps lk sd \<Longrightarrow> p \<in> ps \<Longrightarrow> 0 < p"
  unfolding levels_ok_def by blast

lemma levels_okI:
  assumes "finite ps" and "\<And>p. (d p \<noteq> None) = (p \<in> ps)" and "\<And>p. p \<in> ps \<Longrightarrow> 0 < p"
    and "\<And>p os. d p = Some os \<Longrightarrow> os \<noteq> [] \<and> distinct (map order_id os)"
    and "\<And>p os y. d p = Some os \<Longrightarrow> y \<in> set os \<Longrightarrow> price y = p \<and> lk (order_id y) = Some (p, sd)"
  shows "levels_ok d ps lk sd"
  unfolding levels_ok_def using assms by blast

lemma levels_ok_head:
  assumes ok: "levels_ok d ps lk sd" and dp: "d p = Some (y # rest)"
    and id: "order_id y' = order_id y" and pr: "price y' = price y"
  shows "levels_ok (d(p \<mapsto> y' # rest)) ps lk sd"
proof (rule levels_okI)
  show "finite ps" using ok by (rule levels_ok_finite)
  show "\<And>q. ((d(p \<mapsto> y' # rest)) q \<noteq> None) = (q \<in> ps)"
    using levels_ok_dom [OF ok] levels_okD(3) [OF ok dp] by auto
  show "\<And>q. q \<in> ps \<Longrightarrow> 0 < q" using ok by (rule levels_ok_pos)
  show "\<And>q os. (d(p \<mapsto> y' # rest)) q = Some os \<Longrightarrow> os \<noteq> [] \<and> distinct (map order_id os)"
    using levels_okD(1,2) [OF ok] levels_okD(2) [OF ok dp] id by (auto split: if_splits)
  show "\<And>q os z. (d(p \<mapsto> y' # rest)) q = Some os \<Longrightarrow> z \<in> set os
          \<Longrightarrow> price z = q \<and> lk (order_id z) = Some (q, sd)"
    using levels_okD(5,6) [OF ok] levels_okD(5,6) [OF ok dp] id pr
    by (auto split: if_splits)
qed

lemma levels_ok_unique:
  assumes ok: "levels_ok d ps lk sd" and dp: "d p = Some (y # rest)" and dq: "d q = Some os"
    and z: "z \<in> set os" and id: "order_id z = order_id y"
  shows "q = p \<and> z \<notin> set rest"
proof -
  have "lk (order_id y) = Some (p, sd)" using levels_okD(6) [OF ok dp] by simp
  moreover have "lk (order_id z) = Some (q, sd)" using levels_okD(6) [OF ok dq z] .
  ultimately have qp: "q = p" using id by simp
  have "distinct (map order_id (y # rest))" using levels_okD(2) [OF ok dp] .
  then have "order_id y \<notin> order_id ` set rest" by simp
  then have "z \<notin> set rest" using id by (metis imageI)
  with qp show ?thesis by simp
qed

lemma levels_ok_pop:
  assumes ok: "levels_ok d ps lk sd" and dp: "d p = Some (y # rest)" and ne: "rest \<noteq> []"
  shows "levels_ok (d(p \<mapsto> rest)) ps (lk(order_id y := None)) sd"
proof (rule levels_okI)
  show "finite ps" using ok by (rule levels_ok_finite)
  show "\<And>q. ((d(p \<mapsto> rest)) q \<noteq> None) = (q \<in> ps)"
    using levels_ok_dom [OF ok] levels_okD(3) [OF ok dp] by auto
  show "\<And>q. q \<in> ps \<Longrightarrow> 0 < q" using ok by (rule levels_ok_pos)
  show "\<And>q os. (d(p \<mapsto> rest)) q = Some os \<Longrightarrow> os \<noteq> [] \<and> distinct (map order_id os)"
    using levels_okD(1,2) [OF ok] levels_okD(2) [OF ok dp] ne by (auto split: if_splits)
  show "price z = q \<and> (lk(order_id y := None)) (order_id z) = Some (q, sd)"
    if h: "(d(p \<mapsto> rest)) q = Some os" "z \<in> set os" for q os z
  proof (cases "q = p")
    case True
    then have zr: "z \<in> set rest" using h by simp
    then have zin: "z \<in> set (y # rest)" by simp
    have "order_id z \<noteq> order_id y"
      using levels_ok_unique [OF ok dp dp zin] zr by blast
    then show ?thesis using levels_okD(5,6) [OF ok dp zin] True by simp
  next
    case False
    then have dq: "d q = Some os" using h by simp
    have "order_id z \<noteq> order_id y"
      using levels_ok_unique [OF ok dp dq h(2)] False by blast
    then show ?thesis using levels_okD(5,6) [OF ok dq h(2)] by simp
  qed
qed

lemma levels_ok_drop:
  assumes ok: "levels_ok d ps lk sd" and dp: "d p = Some [y]"
  shows "levels_ok (d(p := None)) (ps - {p}) (lk(order_id y := None)) sd"
proof (rule levels_okI)
  show "finite (ps - {p})" using levels_ok_finite [OF ok] by simp
  show "\<And>q. ((d(p := None)) q \<noteq> None) = (q \<in> ps - {p})"
    using levels_ok_dom [OF ok] by auto
  show "\<And>q. q \<in> ps - {p} \<Longrightarrow> 0 < q" using levels_ok_pos [OF ok] by simp
  show "\<And>q os. (d(p := None)) q = Some os \<Longrightarrow> os \<noteq> [] \<and> distinct (map order_id os)"
    using levels_okD(1,2) [OF ok] by (auto split: if_splits)
  show "price z = q \<and> (lk(order_id y := None)) (order_id z) = Some (q, sd)"
    if h: "(d(p := None)) q = Some os" "z \<in> set os" for q os z
  proof -
    have qp: "q \<noteq> p" and dq: "d q = Some os" using h by (auto split: if_splits)
    have "order_id z \<noteq> order_id y"
      using levels_ok_unique [OF ok dp dq h(2)] qp by blast
    then show ?thesis using levels_okD(5,6) [OF ok dq h(2)] by simp
  qed
qed

lemma levels_ok_forget:
  assumes ok: "levels_ok d ps lk sd" and k: "lk k = Some (p, sd')" and ne: "sd' \<noteq> sd"
  shows "levels_ok d ps (lk(k := None)) sd"
proof (rule levels_okI)
  show "finite ps" using ok by (rule levels_ok_finite)
  show "\<And>q. (d q \<noteq> None) = (q \<in> ps)" using levels_ok_dom [OF ok] by simp
  show "\<And>q. q \<in> ps \<Longrightarrow> 0 < q" using ok by (rule levels_ok_pos)
  show "\<And>q os. d q = Some os \<Longrightarrow> os \<noteq> [] \<and> distinct (map order_id os)"
    using levels_okD(1,2) [OF ok] by blast
  show "price z = q \<and> (lk(k := None)) (order_id z) = Some (q, sd)"
    if h: "d q = Some os" "z \<in> set os" for q os z
    using levels_okD(5,6) [OF ok h] k ne by auto
qed

lemma level_count_head:
  assumes "d p = Some (y # rest)"
  shows "level_count (d(p \<mapsto> y' # rest)) ps = level_count d ps"
  unfolding level_count_def using assms by (intro sum.cong) auto

lemma level_count_split:
  assumes "finite ps" and "p \<in> ps"
  shows "level_count d ps = length (the (d p)) + level_count d (ps - {p})"
  unfolding level_count_def using assms by (simp add: sum.remove)

lemma level_count_cong:
  assumes "\<And>q. q \<in> ps \<Longrightarrow> d q = d' q"
  shows "level_count d ps = level_count d' ps"
  unfolding level_count_def using assms by (intro sum.cong) auto

lemma level_count_pop:
  assumes "finite ps" and "p \<in> ps" and "d p = Some (y # rest)"
  shows "level_count (d(p \<mapsto> rest)) ps < level_count d ps"
proof -
  have "level_count (d(p \<mapsto> rest)) (ps - {p}) = level_count d (ps - {p})"
    by (rule level_count_cong) simp
  then show ?thesis
    using level_count_split [OF assms(1,2), of d]
      level_count_split [OF assms(1,2), of "d(p \<mapsto> rest)"] assms(3) by simp
qed

lemma level_count_drop:
  assumes "finite ps" and "p \<in> ps" and "d p = Some (y # rest)"
  shows "level_count (d(p := None)) (ps - {p}) < level_count d ps"
proof -
  have "level_count (d(p := None)) (ps - {p}) = level_count d (ps - {p})"
    by (rule level_count_cong) simp
  then show ?thesis
    using level_count_split [OF assms(1,2), of d] assms(3) by simp
qed


section \<open>One pass of matching\<close>

lemma upsert_set: "set (upsert r tbl) \<subseteq> insert r (set tbl)"
  by (induction tbl) auto

lemma save_set: "set (save self tbl) \<subseteq> insert (to_row self) (set tbl)"
  unfolding save_def by (rule upsert_set)

lemma update_trade_after:
  assumes "q \<le> remaining_quantity self"
  shows "\<exists>tbl'. update_trade q p self tbl = (None, after_trade q p self, tbl')
           \<and> set tbl' \<subseteq> insert (to_row (after_trade q p self)) (set tbl)"
proof -
  obtain e a t where r: "update_trade q p self tbl = (e, a, t)" by (cases "update_trade q p self tbl")
  have e: "e = None" using r assms by (auto simp: update_trade_def Let_def split: prod.splits)
  have a: "a = after_trade q p self"
    using r assms
    by (auto simp: after_trade_def update_trade_def mark_as_filled_def Let_def split: prod.splits if_splits)
  have "set t \<subseteq> insert (to_row a) (set tbl)"
    using r assms save_set [of a tbl] save_set [of a "save a tbl"]
    by (auto simp: update_trade_def mark_as_filled_def Let_def split: prod.splits if_splits)
  with r e a show ?thesis by blast
qed

lemma after_trade_fields:
  assumes "q \<le> remaining_quantity self"
  shows "order_id (after_trade q p self) = order_id self"
    and "price (after_trade q p self) = price self"
    and "side (after_trade q p self) = side self"
    and "quantity (after_trade q p self) = quantity self"
    and "created_at (after_trade q p self) = created_at self"
    and "remaining_quantity (after_trade q p self) = remaining_quantity self - q"
    and "traded_quantity (after_trade q p self) = traded_quantity self + q"
  using assms
  by (auto simp: after_trade_def update_trade_def mark_as_filled_def Let_def split: prod.splits)


lemma match_buy_fill_ok:
  assumes ok: "book_ok (order_book s)"
    and ba: "best_ask (order_book s) = Some ba"
    and lv: "asks (order_book s) ba = Some (y # rest)"
    and q: "q = min (remaining_quantity x) (remaining_quantity y)"
  shows "\<exists>s'. match_buy_fill s x y rest tr =
               (None, s', after_trade q ba x, tr @ [fst (Trade_create ba q x y (Trade_objects s))])
           \<and> bids (order_book s') = bids (order_book s)
           \<and> bid_prices (order_book s') = bid_prices (order_book s)
           \<and> best_bid (order_book s') = best_bid (order_book s)
           \<and> asks (order_book s') =
                (if remaining_quantity y = q
                 then (if rest = [] then (asks (order_book s))(ba := None)
                       else (asks (order_book s))(ba \<mapsto> rest))
                 else (asks (order_book s))(ba \<mapsto> after_trade q ba y # rest))
           \<and> ask_prices (order_book s') =
                (if remaining_quantity y = q \<and> rest = [] then ask_prices (order_book s) - {ba}
                 else ask_prices (order_book s))
           \<and> best_ask (order_book s') =
                (if remaining_quantity y = q \<and> rest = []
                 then (if ask_prices (order_book s) - {ba} \<noteq> {}
                       then Some (Min (ask_prices (order_book s) - {ba})) else None)
                 else best_ask (order_book s))
           \<and> order_lookup (order_book s') =
                (if remaining_quantity y = q then (order_lookup (order_book s))(order_id y := None)
                 else order_lookup (order_book s))
           \<and> orders_processed (order_book s') = orders_processed (order_book s)
           \<and> trades_created (order_book s') = trades_created (order_book s)
           \<and> set (Order_objects s') \<subseteq>
                insert (to_row (after_trade q ba x))
                  (insert (to_row (after_trade q ba y)) (set (Order_objects s)))
           \<and> Trade_objects s' = snd (Trade_create ba q x y (Trade_objects s))
           \<and> threads s' = threads s"
proof -
  have qx: "q \<le> remaining_quantity x" and qy: "q \<le> remaining_quantity y" using q by simp_all
  obtain t1 where u1: "update_trade q ba x (Order_objects s) = (None, after_trade q ba x, t1)"
    and s1: "set t1 \<subseteq> insert (to_row (after_trade q ba x)) (set (Order_objects s))"
    using update_trade_after [OF qx] by blast
  obtain t2 where u2: "update_trade q ba y t1 = (None, after_trade q ba y, t2)"
    and s2: "set t2 \<subseteq> insert (to_row (after_trade q ba y)) (set t1)"
    using update_trade_after [OF qy] by blast
  have lk: "order_lookup (order_book s) (order_id y) = Some (ba, - 1)"
    using ok lv unfolding book_ok_def by (meson levels_okD(6) list.set_intros(1))
  have ry: "remaining_quantity (after_trade q ba y) = remaining_quantity y - q"
    and iy: "order_id (after_trade q ba y) = order_id y"
    using after_trade_fields [OF qy] by simp_all
  have sub: "set t2 \<subseteq> insert (to_row (after_trade q ba x))
                  (insert (to_row (after_trade q ba y)) (set (Order_objects s)))"
    using s1 s2 by blast
  show ?thesis
    using u1 u2 lk ry iy sub ba q
    by (auto simp: match_buy_fill_def Let_def update_best_ask_def split: prod.splits)
qed


lemma match_buy_fill_inv:
  assumes ok: "book_ok (order_book s)"
    and ba: "best_ask (order_book s) = Some ba"
    and lv: "asks (order_book s) ba = Some (y # rest)"
    and pos: "0 < remaining_quantity x"
    and r: "match_buy_fill s x y rest tr = (e, s', x', tr')"
  shows "book_ok (order_book s')" and "buy_measure s' x' < buy_measure s x"
proof -
  define q where "q = min (remaining_quantity x) (remaining_quantity y)"
  define b where "b = order_book s"
  define b' where "b' = order_book s'"
  have qx: "q \<le> remaining_quantity x" and qy: "q \<le> remaining_quantity y"
    by (simp_all add: q_def)
  from match_buy_fill_ok [OF ok ba lv q_def, of tr] r
  have x': "x' = after_trade q ba x"
    and bids: "bids b' = bids b" "bid_prices b' = bid_prices b" "best_bid b' = best_bid b"
    and asks: "asks b' = (if remaining_quantity y = q
                 then (if rest = [] then (asks b)(ba := None) else (asks b)(ba \<mapsto> rest))
                 else (asks b)(ba \<mapsto> after_trade q ba y # rest))"
    and aps: "ask_prices b' = (if remaining_quantity y = q \<and> rest = [] then ask_prices b - {ba}
                 else ask_prices b)"
    and bst: "best_ask b' = (if remaining_quantity y = q \<and> rest = []
                 then (if ask_prices b - {ba} \<noteq> {} then Some (Min (ask_prices b - {ba})) else None)
                 else best_ask b)"
    and lk': "order_lookup b' = (if remaining_quantity y = q then (order_lookup b)(order_id y := None)
                 else order_lookup b)"
    unfolding b_def b'_def by auto
  have okb: "levels_ok (bids b) (bid_prices b) (order_lookup b) 1"
    and oka: "levels_ok (asks b) (ask_prices b) (order_lookup b) (- 1)"
    and bb: "best_bid b = (if bid_prices b = {} then None else Some (Max (bid_prices b)))"
    and bab: "best_ask b = (if ask_prices b = {} then None else Some (Min (ask_prices b)))"
    using ok unfolding book_ok_def b_def by simp_all
  have lv': "asks b ba = Some (y # rest)" using lv by (simp add: b_def)
  have lk: "order_lookup b (order_id y) = Some (ba, - 1)"
    using levels_okD(6) [OF oka lv'] by simp
  have fin: "finite (ask_prices b)" and mem: "ba \<in> ask_prices b"
    using levels_ok_finite [OF oka] levels_okD(3) [OF oka lv'] by simp_all
  have fy: "order_id (after_trade q ba y) = order_id y" "price (after_trade q ba y) = price y"
    using after_trade_fields [OF qy] by simp_all
  have rx: "remaining_quantity x' = remaining_quantity x - q"
    using after_trade_fields [OF qx] x' by simp
  show "book_ok (order_book s')"
  proof (cases "remaining_quantity y = q")
    case False
    have "levels_ok (asks b') (ask_prices b') (order_lookup b') (- 1)"
      using levels_ok_head [of "asks b" "ask_prices b" "order_lookup b" "- 1" ba y rest "after_trade q ba y"] oka lv' fy False asks aps lk' by simp
    moreover have "levels_ok (bids b') (bid_prices b') (order_lookup b') 1"
      using okb bids lk' False by simp
    ultimately show ?thesis
      using bb bab bids aps bst False unfolding book_ok_def b'_def [symmetric] by simp
  next
    case True
    have fb: "levels_ok (bids b') (bid_prices b') (order_lookup b') 1"
      using levels_ok_forget [OF okb lk] bids lk' True by simp
    show ?thesis
    proof (cases "rest = []")
      case e: True
      have "levels_ok (asks b') (ask_prices b') (order_lookup b') (- 1)"
        using levels_ok_drop [OF oka] lv' e True asks aps lk' by simp
      then show ?thesis
        using fb bb bids aps bst True e unfolding book_ok_def b'_def [symmetric] by simp
    next
      case ne: False
      have "levels_ok (asks b') (ask_prices b') (order_lookup b') (- 1)"
        using levels_ok_pop [OF oka lv' ne] True ne asks aps lk' by simp
      then show ?thesis
        using fb bb bab bids aps bst True ne unfolding book_ok_def b'_def [symmetric] by simp
    qed
  qed
  show "buy_measure s' x' < buy_measure s x"
  proof (cases "remaining_quantity y = q")
    case False
    then have "q = remaining_quantity x" using q_def by linarith
    then have "remaining_quantity x' = 0" using rx by simp
    moreover have "level_count (asks b') (ask_prices b') = level_count (asks b) (ask_prices b)"
      using level_count_head [of "asks b" ba y rest "after_trade q ba y" "ask_prices b"] lv' False asks aps by simp
    ultimately show ?thesis using pos unfolding buy_measure_def b_def b'_def by simp
  next
    case True
    have "level_count (asks b') (ask_prices b') < level_count (asks b) (ask_prices b)"
      using level_count_pop [of "ask_prices b" ba "asks b" y rest] level_count_drop [of "ask_prices b" ba "asks b" y rest] fin mem lv' True asks aps
      by (cases "rest = []") simp_all
    then show ?thesis using pos unfolding buy_measure_def b_def b'_def by simp
  qed
qed


lemma buy_crosses_level:
  assumes ok: "book_ok b" and cr: "buy_crosses b x"
  shows "\<exists>ba y rest. best_ask b = Some ba \<and> asks b ba = Some (y # rest)
           \<and> level (asks b) (best_ask b) = y # rest \<and> ba \<le> price x
           \<and> 0 < remaining_quantity x"
proof -
  from cr obtain ba where ba: "best_ask b = Some ba" and le: "ba \<le> price x"
    and pos: "0 < remaining_quantity x"
    unfolding buy_crosses_def truthy_def by (auto split: option.splits)
  have oka: "levels_ok (asks b) (ask_prices b) (order_lookup b) (- 1)"
    and bab: "best_ask b = (if ask_prices b = {} then None else Some (Min (ask_prices b)))"
    using ok unfolding book_ok_def by simp_all
  from ba bab have ne: "ask_prices b \<noteq> {}" and m: "ba = Min (ask_prices b)"
    by (auto split: if_splits)
  have "ba \<in> ask_prices b" using Min_in [OF levels_ok_finite [OF oka] ne] m by simp
  then obtain os where os: "asks b ba = Some os" using levels_ok_dom [OF oka, of ba] by auto
  then have "os \<noteq> []" using levels_okD(1) [OF oka] by blast
  then obtain y rest where "os = y # rest" by (cases os) auto
  with ba os le pos show ?thesis by (auto simp: level_def)
qed


lemma match_sell_fill_ok:
  assumes ok: "book_ok (order_book s)"
    and bb: "best_bid (order_book s) = Some bb"
    and lv: "bids (order_book s) bb = Some (y # rest)"
    and q: "q = min (remaining_quantity x) (remaining_quantity y)"
  shows "\<exists>s'. match_sell_fill s x y rest tr =
               (None, s', after_trade q bb x, tr @ [fst (Trade_create bb q y x (Trade_objects s))])
           \<and> asks (order_book s') = asks (order_book s)
           \<and> ask_prices (order_book s') = ask_prices (order_book s)
           \<and> best_ask (order_book s') = best_ask (order_book s)
           \<and> bids (order_book s') =
                (if remaining_quantity y = q
                 then (if rest = [] then (bids (order_book s))(bb := None)
                       else (bids (order_book s))(bb \<mapsto> rest))
                 else (bids (order_book s))(bb \<mapsto> after_trade q bb y # rest))
           \<and> bid_prices (order_book s') =
                (if remaining_quantity y = q \<and> rest = [] then bid_prices (order_book s) - {bb}
                 else bid_prices (order_book s))
           \<and> best_bid (order_book s') =
                (if remaining_quantity y = q \<and> rest = []
                 then (if bid_prices (order_book s) - {bb} \<noteq> {}
                       then Some (Max (bid_prices (order_book s) - {bb})) else None)
                 else best_bid (order_book s))
           \<and> order_lookup (order_book s') =
                (if remaining_quantity y = q then (order_lookup (order_book s))(order_id y := None)
                 else order_lookup (order_book s))
           \<and> orders_processed (order_book s') = orders_processed (order_book s)
           \<and> trades_created (order_book s') = trades_created (order_book s)
           \<and> set (Order_objects s') \<subseteq>
                insert (to_row (after_trade q bb x))
                  (insert (to_row (after_trade q bb y)) (set (Order_objects s)))
           \<and> Trade_objects s' = snd (Trade_create bb q y x (Trade_objects s))
           \<and> threads s' = threads s"
proof -
  have qx: "q \<le> remaining_quantity x" and qy: "q \<le> remaining_quantity y" using q by simp_all
  obtain t1 where u1: "update_trade q bb x (Order_objects s) = (None, after_trade q bb x, t1)"
    and s1: "set t1 \<subseteq> insert (to_row (after_trade q bb x)) (set (Order_objects s))"
    using update_trade_after [OF qx] by blast
  obtain t2 where u2: "update_trade q bb y t1 = (None, after_trade q bb y, t2)"
    and s2: "set t2 \<subseteq> insert (to_row (after_trade q bb y)) (set t1)"
    using update_trade_after [OF qy] by blast
  have lk: "order_lookup (order_book s) (order_id y) = Some (bb, 1)"
    using ok lv unfolding book_ok_def by (meson levels_okD(6) list.set_intros(1))
  have ry: "remaining_quantity (after_trade q bb y) = remaining_quantity y - q"
    and iy: "order_id (after_trade q bb y) = order_id y"
    using after_trade_fields [OF qy] by simp_all
  have sub: "set t2 \<subseteq> insert (to_row (after_trade q bb x))
                  (insert (to_row (after_trade q bb y)) (set (Order_objects s)))"
    using s1 s2 by blast
  show ?thesis
    using u1 u2 lk ry iy sub bb q
    by (auto simp: match_sell_fill_def Let_def update_best_bid_def split: prod.splits)
qed

lemma match_sell_fill_inv:
  assumes ok: "book_ok (order_book s)"
    and bb: "best_bid (order_book s) = Some bb"
    and lv: "bids (order_book s) bb = Some (y # rest)"
    and pos: "0 < remaining_quantity x"
    and r: "match_sell_fill s x y rest tr = (e, s', x', tr')"
  shows "book_ok (order_book s')" and "sell_measure s' x' < sell_measure s x"
proof -
  define q where "q = min (remaining_quantity x) (remaining_quantity y)"
  define b where "b = order_book s"
  define b' where "b' = order_book s'"
  have qx: "q \<le> remaining_quantity x" and qy: "q \<le> remaining_quantity y"
    by (simp_all add: q_def)
  from match_sell_fill_ok [OF ok bb lv q_def, of tr] r
  have x': "x' = after_trade q bb x"
    and asks: "asks b' = asks b" "ask_prices b' = ask_prices b" "best_ask b' = best_ask b"
    and bids: "bids b' = (if remaining_quantity y = q
                 then (if rest = [] then (bids b)(bb := None) else (bids b)(bb \<mapsto> rest))
                 else (bids b)(bb \<mapsto> after_trade q bb y # rest))"
    and bps: "bid_prices b' = (if remaining_quantity y = q \<and> rest = [] then bid_prices b - {bb}
                 else bid_prices b)"
    and bst: "best_bid b' = (if remaining_quantity y = q \<and> rest = []
                 then (if bid_prices b - {bb} \<noteq> {} then Some (Max (bid_prices b - {bb})) else None)
                 else best_bid b)"
    and lk': "order_lookup b' = (if remaining_quantity y = q then (order_lookup b)(order_id y := None)
                 else order_lookup b)"
    unfolding b_def b'_def by auto
  have oka: "levels_ok (asks b) (ask_prices b) (order_lookup b) (- 1)"
    and okb: "levels_ok (bids b) (bid_prices b) (order_lookup b) 1"
    and ba: "best_ask b = (if ask_prices b = {} then None else Some (Min (ask_prices b)))"
    and bb0: "best_bid b = (if bid_prices b = {} then None else Some (Max (bid_prices b)))"
    using ok unfolding book_ok_def b_def by simp_all
  have lv': "bids b bb = Some (y # rest)" using lv by (simp add: b_def)
  have lk: "order_lookup b (order_id y) = Some (bb, 1)"
    using levels_okD(6) [OF okb lv'] by simp
  have fin: "finite (bid_prices b)" and mem: "bb \<in> bid_prices b"
    using levels_ok_finite [OF okb] levels_okD(3) [OF okb lv'] by simp_all
  have fy: "order_id (after_trade q bb y) = order_id y" "price (after_trade q bb y) = price y"
    using after_trade_fields [OF qy] by simp_all
  have rx: "remaining_quantity x' = remaining_quantity x - q"
    using after_trade_fields [OF qx] x' by simp
  show "book_ok (order_book s')"
  proof (cases "remaining_quantity y = q")
    case False
    have "levels_ok (bids b') (bid_prices b') (order_lookup b') 1"
      using levels_ok_head [of "bids b" "bid_prices b" "order_lookup b" 1 bb y rest "after_trade q bb y"] okb lv' fy False bids bps lk' by simp
    moreover have "levels_ok (asks b') (ask_prices b') (order_lookup b') (- 1)"
      using oka asks lk' False by simp
    ultimately show ?thesis
      using ba bb0 asks bps bst False unfolding book_ok_def b'_def [symmetric] by simp
  next
    case True
    have fb: "levels_ok (asks b') (ask_prices b') (order_lookup b') (- 1)"
      using levels_ok_forget [OF oka lk] asks lk' True by simp
    show ?thesis
    proof (cases "rest = []")
      case e: True
      have "levels_ok (bids b') (bid_prices b') (order_lookup b') 1"
        using levels_ok_drop [OF okb] lv' e True bids bps lk' by simp
      then show ?thesis
        using fb ba asks bps bst True e unfolding book_ok_def b'_def [symmetric] by simp
    next
      case ne: False
      have "levels_ok (bids b') (bid_prices b') (order_lookup b') 1"
        using levels_ok_pop [OF okb lv' ne] True ne bids bps lk' by simp
      then show ?thesis
        using fb ba bb0 asks bps bst True ne unfolding book_ok_def b'_def [symmetric] by simp
    qed
  qed
  show "sell_measure s' x' < sell_measure s x"
  proof (cases "remaining_quantity y = q")
    case False
    then have "q = remaining_quantity x" using q_def by linarith
    then have "remaining_quantity x' = 0" using rx by simp
    moreover have "level_count (bids b') (bid_prices b') = level_count (bids b) (bid_prices b)"
      using level_count_head [of "bids b" bb y rest "after_trade q bb y" "bid_prices b"] lv' False bids bps by simp
    ultimately show ?thesis using pos unfolding sell_measure_def b_def b'_def by simp
  next
    case True
    have "level_count (bids b') (bid_prices b') < level_count (bids b) (bid_prices b)"
      using level_count_pop [of "bid_prices b" bb "bids b" y rest] level_count_drop [of "bid_prices b" bb "bids b" y rest] fin mem lv' True bids bps
      by (cases "rest = []") simp_all
    then show ?thesis using pos unfolding sell_measure_def b_def b'_def by simp
  qed
qed


lemma sell_crosses_level:
  assumes ok: "book_ok b" and cr: "sell_crosses b x"
  shows "\<exists>bb y rest. best_bid b = Some bb \<and> bids b bb = Some (y # rest)
           \<and> level (bids b) (best_bid b) = y # rest \<and> price x \<le> bb
           \<and> 0 < remaining_quantity x"
proof -
  from cr obtain bb where bb: "best_bid b = Some bb" and le: "price x \<le> bb"
    and pos: "0 < remaining_quantity x"
    unfolding sell_crosses_def truthy_def by (auto split: option.splits)
  have okb: "levels_ok (bids b) (bid_prices b) (order_lookup b) 1"
    and bb0: "best_bid b = (if bid_prices b = {} then None else Some (Max (bid_prices b)))"
    using ok unfolding book_ok_def by simp_all
  from bb bb0 have ne: "bid_prices b \<noteq> {}" and m: "bb = Max (bid_prices b)"
    by (auto split: if_splits)
  have "bb \<in> bid_prices b" using Max_in [OF levels_ok_finite [OF okb] ne] m by simp
  then obtain os where os: "bids b bb = Some os" using levels_ok_dom [OF okb, of bb] by auto
  then have "os \<noteq> []" using levels_okD(1) [OF okb] by blast
  then obtain y rest where "os = y # rest" by (cases os) auto
  with bb os le pos show ?thesis by (auto simp: level_def)
qed



section \<open>The trades of a matching run\<close>


lemma Trade_create_fields:
  "Trade.price (fst (Trade_create p q bid ask tbl)) = p"
  "Trade.quantity (fst (Trade_create p q bid ask tbl)) = q"
  "bid_order (fst (Trade_create p q bid ask tbl)) = order_id bid"
  "ask_order (fst (Trade_create p q bid ask tbl)) = order_id ask"
  "snd (Trade_create p q bid ask tbl) = tbl @ [trade_row (fst (Trade_create p q bid ask tbl))]"
  by (simp_all add: Trade_create_def trade_row_def Let_def)





section \<open>Adding an order to the book\<close>




lemma add_sell_order_fields:
  "asks (add_sell_order x b) =
     (asks b)(price x \<mapsto> (case asks b (price x) of None \<Rightarrow> [] | Some os \<Rightarrow> os) @ [x])"
  "ask_prices (add_sell_order x b) =
     (if asks b (price x) = None then insert (price x) (ask_prices b) else ask_prices b)"
  "order_lookup (add_sell_order x b) = (order_lookup b)(order_id x \<mapsto> (price x, - 1))"
  "best_ask (add_sell_order x b) =
     (if best_ask b = None \<or> price x < the (best_ask b) then Some (price x) else best_ask b)"
  "bids (add_sell_order x b) = bids b" "bid_prices (add_sell_order x b) = bid_prices b"
  "best_bid (add_sell_order x b) = best_bid b"
  "orders_processed (add_sell_order x b) = orders_processed b"
  "trades_created (add_sell_order x b) = trades_created b"
  by (auto simp: add_sell_order_def Let_def split: option.splits)






section \<open>Price of a trade\<close>





section \<open>Rounding of representable decimals\<close>

lemma dec_norm_up_shift:
  assumes "0 < m"
  shows "\<exists>j. dec_norm_up m e = (m * 10 ^ j, e - int j) \<and> 10 ^ 27 \<le> m * 10 ^ j"
  using assms
proof (induction m e rule: dec_norm_up.induct)
  case (1 m e)
  show ?case
  proof (cases "m < 10 ^ 27")
    case False
    then have "dec_norm_up m e = (m * 10 ^ 0, e - int 0)" using "1.prems"
      by (subst dec_norm_up.simps) simp
    moreover have "10 ^ 27 \<le> m * 10 ^ 0" using False by simp
    ultimately show ?thesis by blast
  next
    case True
    have pos: "0 < m * 10" using "1.prems" by simp
    from "1.IH" [OF _ pos] True "1.prems"
    obtain j where j: "dec_norm_up (m * 10) (e - 1) = (m * 10 * 10 ^ j, e - 1 - int j)"
      "10 ^ 27 \<le> m * 10 * 10 ^ j" by auto
    have "dec_norm_up m e = dec_norm_up (m * 10) (e - 1)"
      using True "1.prems" by (subst dec_norm_up.simps) simp
    then have "dec_norm_up m e = (m * 10 ^ Suc j, e - int (Suc j))"
      using j(1) by (simp add: mult.assoc)
    moreover have "10 ^ 27 \<le> m * 10 ^ Suc j" using j(2) by (simp add: mult.assoc)
    ultimately show ?thesis by blast
  qed
qed

lemma dec_round_exact:
  assumes c0: "0 < c" and c28: "c < 10 ^ 28"
  shows "dec_round (of_int c / 10 ^ k) = of_int c / 10 ^ k"
proof -
  define x :: rat where "x = of_int c / 10 ^ k"
  have xpos: "0 < x" using c0 by (simp add: x_def)
  have cr: "(of_int c :: rat) < 10 ^ 28" using c28 by (metis of_int_less_iff of_int_numeral of_int_power)
  have "x \<le> of_int c" using c0 by (simp add: x_def divide_le_eq mult_le_cancel_left1)
  then have xlt: "x < 10 ^ 28" using cr by linarith
  have down: "dec_norm_down \<bar>x\<bar> 0 = (x, 0)"
    using xpos xlt by (subst dec_norm_down.simps) simp
  from dec_norm_up_shift [OF xpos, of 0] obtain j where
    up: "dec_norm_up x 0 = (x * 10 ^ j, 0 - int j)" and big: "10 ^ 27 \<le> x * 10 ^ j" by blast
  have kj: "k \<le> j"
  proof (rule ccontr)
    assume "\<not> k \<le> j"
    then have "j < k" by simp
    then obtain d where d: "k = j + Suc d" using less_imp_Suc_add [of j k] by auto
    have "x * 10 ^ j = of_int c / 10 ^ Suc d" by (simp add: x_def d power_add)
    also have "\<dots> \<le> of_int c / 10" 
      by (rule divide_left_mono) (use c0 in \<open>simp_all add: self_le_power\<close>)
    also have "\<dots> < 10 ^ 27" using cr by simp
    finally show False using big by simp
  qed
  then obtain d where d: "j = k + d" using le_Suc_ex [of k j] by auto
  have int: "x * 10 ^ j = of_int (c * 10 ^ d)" by (simp add: x_def d power_add)
  have "dec_round x = sgn x * of_int (round_half_even (x * 10 ^ j)) * pow10 (0 - int j)"
    using xpos down up by (simp add: dec_round_def)
  also have "\<dots> = of_int (c * 10 ^ d) * (1 / 10 ^ j)"
    using xpos by (simp add: int pow10_def sgn_if del: of_int_mult)
  also have "\<dots> = x" by (simp add: x_def d power_add)
  finally show ?thesis by (simp add: x_def)
qed

lemma dec_round_0 [simp]: "dec_round 0 = 0"
  by (simp add: dec_round_def)

lemma dec_round_of_int:
  assumes "0 \<le> c" and "c < 10 ^ 28"
  shows "dec_round (of_int c) = of_int c"
  using dec_round_exact [of c 0] assms by (cases "c = 0") simp_all

lemma dec_round_numeral [simp]:
  "numeral n < (10 :: int) ^ 28 \<Longrightarrow> dec_round (numeral n) = numeral n"
  using dec_round_of_int [of "numeral n"] by simp


section \<open>Loading resting orders from the table\<close>

lemma book_orders_add_sell: "book_orders (add_sell_order x b) \<subseteq> insert x (book_orders b)"
  unfolding book_orders_def
  by (auto simp: add_sell_order_fields split: if_splits option.splits) blast+








section \<open>Properties of all orders kept by matching\<close>









section \<open>Adding an order and matching it\<close>

lemma book_ok_counters [simp]:
  "book_ok (b\<lparr>orders_processed := n, trades_created := m\<rparr>) = book_ok b"
  by (simp add: book_ok_def)

lemma book_orders_counters [simp]:
  "book_orders (b\<lparr>orders_processed := n, trades_created := m\<rparr>) = book_orders b"
  by (simp add: book_orders_def)





section \<open>Cancelling an order\<close>



lemma find_pk:
  assumes "y \<in> set os"
  shows "\<exists>z. find (\<lambda>x. order_id x = order_id y) os = Some z \<and> z \<in> set os
           \<and> order_id z = order_id y"
  using assms by (induction os) auto














lemma book_orders_lookup:
  assumes ok: "book_ok b" and z: "z \<in> book_orders b"
  shows "order_lookup b (order_id z) \<noteq> None"
proof -
  from z obtain q zs where h: "bids b q = Some zs \<or> asks b q = Some zs" "z \<in> set zs"
    unfolding book_orders_def by blast
  have okb: "levels_ok (bids b) (bid_prices b) (order_lookup b) 1"
    and oka: "levels_ok (asks b) (ask_prices b) (order_lookup b) (- 1)"
    using ok unfolding book_ok_def by simp_all
  show ?thesis
    using levels_okD(6) [OF oka, of q zs z] levels_okD(6) [OF okb, of q zs z] h by auto
qed




section \<open>The cancel command\<close>











section \<open>Invariants of the orders\<close>


lemma quantize2_idem: "quantize2 (quantize2 x) = quantize2 x"
  by (simp add: quantize2_def)

lemma decimal_field_valid_price:
  assumes "decimal_field_valid p"
  shows "0 < p" and "quantize2 p = p"
proof -
  show "0 < p" using assms by (simp add: decimal_field_valid_def)
  have "p * 100 = of_int \<lfloor>p * 100\<rfloor>" using assms by (simp add: decimal_field_valid_def)
  then have "round_half_even (p * 100) = \<lfloor>p * 100\<rfloor>"
    using round_half_even_of_int [of "\<lfloor>p * 100\<rfloor>"] by simp
  then show "quantize2 p = p"
    using \<open>p * 100 = of_int \<lfloor>p * 100\<rfloor>\<close> by (simp add: quantize2_def)
qed










section \<open>The quantity invariant\<close>



lemma book_orders_init [simp]: "book_orders OrderBook_init = {}"
  by (simp add: book_orders_def OrderBook_init_def)

lemma resting_ok:
  assumes "0 \<le> q" and "decimal_field_valid p"
  shows "price_ok (resting k sd q p t)" and "qty_ok (resting k sd q p t)"
    and "status_ok (resting k sd q p t)"
  using assms decimal_field_valid_price [of p]
  by (simp_all add: resting_def price_ok_def qty_ok_def status_ok_def)

lemma decimal_field_valid_numeral:
  "numeral n < (10 :: rat) ^ 8 \<Longrightarrow> decimal_field_valid (numeral n)"
proof -
  assume a: "numeral n < (10 :: rat) ^ 8"
  have "(numeral n :: rat) * 100 = of_int (numeral n * 100)" by simp
  then have "(numeral n :: rat) * 100 = of_int \<lfloor>(numeral n :: rat) * 100\<rfloor>"
    by (metis floor_of_int)
  moreover have "float_0_01 \<le> numeral n"
  proof -
    have "float_0_01 \<le> 1" by (simp add: float_0_01_def)
    also have "(1 :: rat) \<le> numeral n" by simp
    finally show ?thesis .
  qed
  ultimately show ?thesis using a by (simp add: decimal_field_valid_def)
qed





section \<open>The status invariant\<close>

text \<open>
  The method \<open>mark_as_cancelled\<close> of the model is called nowhere; it would keep the
  quantity invariant only on an order that is already fully traded.
\<close>

lemma mark_as_cancelled_quantity:
  "qty_ok (fst (mark_as_cancelled y tbl)) = (quantity y = traded_quantity y)"
  by (simp add: mark_as_cancelled_def qty_ok_def Let_def)





section \<open>The place command\<close>





lemma ex_match_sys_all: "all_orders price_ok ex_match_sys"
proof -
  have a: "decimal_field_valid 101" by (rule decimal_field_valid_numeral) simp
  have b: "book_orders (order_book ex_match_sys) \<subseteq> {ex_ask}"
    using book_orders_add_sell [of ex_ask OrderBook_init] by (simp add: ex_match_sys_def)
  have c: "price_ok ex_ask" unfolding ex_ask_def using resting_ok(1) [OF _ a] by simp
  show ?thesis unfolding all_orders_def using b c by (auto simp: ex_match_sys_def)
qed



section \<open>The matching algorithm\<close>

lemma match_buy_order_step:
  assumes ok: "book_ok (order_book s)"
  shows "(buy_crosses (order_book s) x \<longleftrightarrow>
            0 < remaining_quantity x
            \<and> (\<exists>ba. best_ask (order_book s) = Some ba \<and> ba \<le> price x))
     \<and> (\<not> buy_crosses (order_book s) x \<longrightarrow> match_buy_order s x tr = Some (None, s, x, tr))
     \<and> (buy_crosses (order_book s) x \<longrightarrow>
          (\<exists>ba y rest q t s'.
             best_ask (order_book s) = Some ba \<and> asks (order_book s) ba = Some (y # rest)
             \<and> q = min (remaining_quantity x) (remaining_quantity y)
             \<and> Trade.quantity t = q \<and> Trade.price t = price y
             \<and> bid_order t = order_id x \<and> ask_order t = order_id y
             \<and> match_buy_order s x tr = match_buy_order s' (after_trade q ba x) (tr @ [t])
             \<and> remaining_quantity (after_trade q ba x) = remaining_quantity x - q
             \<and> remaining_quantity (after_trade q ba y) = remaining_quantity y - q
             \<and> asks (order_book s') =
                  (if remaining_quantity y = q
                   then (if rest = [] then (asks (order_book s))(ba := None)
                         else (asks (order_book s))(ba \<mapsto> rest))
                   else (asks (order_book s))(ba \<mapsto> after_trade q ba y # rest))
             \<and> bids (order_book s') = bids (order_book s)
             \<and> (remaining_quantity y = q \<longrightarrow>
                   order_lookup (order_book s') (order_id y) = None
                   \<and> (\<forall>z \<in> book_orders (order_book s'). order_id z \<noteq> order_id y))
             \<and> book_ok (order_book s')))"
proof -
  have oka: "levels_ok (asks (order_book s)) (ask_prices (order_book s))
               (order_lookup (order_book s)) (- 1)"
    and bab: "best_ask (order_book s) =
        (if ask_prices (order_book s) = {} then None else Some (Min (ask_prices (order_book s))))"
    using ok unfolding book_ok_def by simp_all
  have pos: "0 < ba" if "best_ask (order_book s) = Some ba" for ba
  proof -
    from that bab have ne: "ask_prices (order_book s) \<noteq> {}"
      and m: "ba = Min (ask_prices (order_book s))" by (auto split: if_splits)
    have "ba \<in> ask_prices (order_book s)"
      using Min_in [OF levels_ok_finite [OF oka] ne] m by simp
    then show ?thesis using levels_ok_pos [OF oka] by blast
  qed
  have c1: "buy_crosses (order_book s) x \<longleftrightarrow>
            0 < remaining_quantity x
            \<and> (\<exists>ba. best_ask (order_book s) = Some ba \<and> ba \<le> price x)"
    using pos by (auto simp: buy_crosses_def truthy_def split: option.splits)
  have c2: "match_buy_order s x tr = Some (None, s, x, tr)" if "\<not> buy_crosses (order_book s) x"
    using that by (subst match_buy_order.simps) simp
  have c3: "\<exists>ba y rest q t s'.
             best_ask (order_book s) = Some ba \<and> asks (order_book s) ba = Some (y # rest)
             \<and> q = min (remaining_quantity x) (remaining_quantity y)
             \<and> Trade.quantity t = q \<and> Trade.price t = price y
             \<and> bid_order t = order_id x \<and> ask_order t = order_id y
             \<and> match_buy_order s x tr = match_buy_order s' (after_trade q ba x) (tr @ [t])
             \<and> remaining_quantity (after_trade q ba x) = remaining_quantity x - q
             \<and> remaining_quantity (after_trade q ba y) = remaining_quantity y - q
             \<and> asks (order_book s') =
                  (if remaining_quantity y = q
                   then (if rest = [] then (asks (order_book s))(ba := None)
                         else (asks (order_book s))(ba \<mapsto> rest))
                   else (asks (order_book s))(ba \<mapsto> after_trade q ba y # rest))
             \<and> bids (order_book s') = bids (order_book s)
             \<and> (remaining_quantity y = q \<longrightarrow>
                   order_lookup (order_book s') (order_id y) = None
                   \<and> (\<forall>z \<in> book_orders (order_book s'). order_id z \<noteq> order_id y))
             \<and> book_ok (order_book s')"
    if cr: "buy_crosses (order_book s) x"
  proof -
    from buy_crosses_level [OF ok cr] obtain ba y rest where
      ba: "best_ask (order_book s) = Some ba" and lv: "asks (order_book s) ba = Some (y # rest)"
      and lev: "level (asks (order_book s)) (best_ask (order_book s)) = y # rest"
      and rx: "0 < remaining_quantity x" by blast
    define q where "q = min (remaining_quantity x) (remaining_quantity y)"
    define t where "t = fst (Trade_create ba q x y (Trade_objects s))"
    have qx: "q \<le> remaining_quantity x" and qy: "q \<le> remaining_quantity y"
      by (simp_all add: q_def)
    from match_buy_fill_ok [OF ok ba lv q_def, of tr] obtain s' where
      f: "match_buy_fill s x y rest tr = (None, s', after_trade q ba x, tr @ [t])"
      and bids: "bids (order_book s') = bids (order_book s)"
      and asks: "asks (order_book s') =
                  (if remaining_quantity y = q
                   then (if rest = [] then (asks (order_book s))(ba := None)
                         else (asks (order_book s))(ba \<mapsto> rest))
                   else (asks (order_book s))(ba \<mapsto> after_trade q ba y # rest))"
      and lk: "order_lookup (order_book s') =
                (if remaining_quantity y = q then (order_lookup (order_book s))(order_id y := None)
                 else order_lookup (order_book s))"
      unfolding t_def by blast
    have ok': "book_ok (order_book s')" using match_buy_fill_inv(1) [OF ok ba lv rx f] .
    have unf: "match_buy_order s x tr = match_buy_order s' (after_trade q ba x) (tr @ [t])"
      by (subst match_buy_order.simps) (simp add: cr lev f)
    have py: "price y = ba" using levels_okD(5) [OF oka lv] by simp
    have tf: "Trade.quantity t = q" "Trade.price t = price y" "bid_order t = order_id x"
      "ask_order t = order_id y"
      by (simp_all add: t_def Trade_create_fields py)
    have rem: "remaining_quantity (after_trade q ba x) = remaining_quantity x - q"
      "remaining_quantity (after_trade q ba y) = remaining_quantity y - q"
      using after_trade_fields(6) [OF qx] after_trade_fields(6) [OF qy] by simp_all
    have gone: "order_lookup (order_book s') (order_id y) = None
                   \<and> (\<forall>z \<in> book_orders (order_book s'). order_id z \<noteq> order_id y)"
      if "remaining_quantity y = q"
    proof -
      have n: "order_lookup (order_book s') (order_id y) = None" using lk that by simp
      then show ?thesis using book_orders_lookup [OF ok'] by metis
    qed
    show ?thesis
      using ba lv q_def tf unf rem asks bids gone ok' by blast
  qed
  from c1 c2 c3 show ?thesis by blast
qed

lemma match_sell_order_step:
  assumes ok: "book_ok (order_book s)"
  shows "(sell_crosses (order_book s) x \<longleftrightarrow>
            0 < remaining_quantity x
            \<and> (\<exists>bb. best_bid (order_book s) = Some bb \<and> price x \<le> bb))
     \<and> (\<not> sell_crosses (order_book s) x \<longrightarrow> match_sell_order s x tr = Some (None, s, x, tr))
     \<and> (sell_crosses (order_book s) x \<longrightarrow>
          (\<exists>bb y rest q t s'.
             best_bid (order_book s) = Some bb \<and> bids (order_book s) bb = Some (y # rest)
             \<and> q = min (remaining_quantity x) (remaining_quantity y)
             \<and> Trade.quantity t = q \<and> Trade.price t = price y
             \<and> ask_order t = order_id x \<and> bid_order t = order_id y
             \<and> match_sell_order s x tr = match_sell_order s' (after_trade q bb x) (tr @ [t])
             \<and> remaining_quantity (after_trade q bb x) = remaining_quantity x - q
             \<and> remaining_quantity (after_trade q bb y) = remaining_quantity y - q
             \<and> bids (order_book s') =
                  (if remaining_quantity y = q
                   then (if rest = [] then (bids (order_book s))(bb := None)
                         else (bids (order_book s))(bb \<mapsto> rest))
                   else (bids (order_book s))(bb \<mapsto> after_trade q bb y # rest))
             \<and> asks (order_book s') = asks (order_book s)
             \<and> (remaining_quantity y = q \<longrightarrow>
                   order_lookup (order_book s') (order_id y) = None
                   \<and> (\<forall>z \<in> book_orders (order_book s'). order_id z \<noteq> order_id y))
             \<and> book_ok (order_book s')))"
proof -
  have okb: "levels_ok (bids (order_book s)) (bid_prices (order_book s))
               (order_lookup (order_book s)) 1"
    and bb0: "best_bid (order_book s) =
        (if bid_prices (order_book s) = {} then None else Some (Max (bid_prices (order_book s))))"
    using ok unfolding book_ok_def by simp_all
  have pos: "0 < bb" if "best_bid (order_book s) = Some bb" for bb
  proof -
    from that bb0 have ne: "bid_prices (order_book s) \<noteq> {}"
      and m: "bb = Max (bid_prices (order_book s))" by (auto split: if_splits)
    have "bb \<in> bid_prices (order_book s)"
      using Max_in [OF levels_ok_finite [OF okb] ne] m by simp
    then show ?thesis using levels_ok_pos [OF okb] by blast
  qed
  have c1: "sell_crosses (order_book s) x \<longleftrightarrow>
            0 < remaining_quantity x
            \<and> (\<exists>bb. best_bid (order_book s) = Some bb \<and> price x \<le> bb)"
    using pos by (auto simp: sell_crosses_def truthy_def split: option.splits)
  have c2: "match_sell_order s x tr = Some (None, s, x, tr)" if "\<not> sell_crosses (order_book s) x"
    using that by (subst match_sell_order.simps) simp
  have c3: "\<exists>bb y rest q t s'.
             best_bid (order_book s) = Some bb \<and> bids (order_book s) bb = Some (y # rest)
             \<and> q = min (remaining_quantity x) (remaining_quantity y)
             \<and> Trade.quantity t = q \<and> Trade.price t = price y
             \<and> ask_order t = order_id x \<and> bid_order t = order_id y
             \<and> match_sell_order s x tr = match_sell_order s' (after_trade q bb x) (tr @ [t])
             \<and> remaining_quantity (after_trade q bb x) = remaining_quantity x - q
             \<and> remaining_quantity (after_trade q bb y) = remaining_quantity y - q
             \<and> bids (order_book s') =
                  (if remaining_quantity y = q
                   then (if rest = [] then (bids (order_book s))(bb := None)
                         else (bids (order_book s))(bb \<mapsto> rest))
                   else (bids (order_book s))(bb \<mapsto> after_trade q bb y # rest))
             \<and> asks (order_book s') = asks (order_book s)
             \<and> (remaining_quantity y = q \<longrightarrow>
                   order_lookup (order_book s') (order_id y) = None
                   \<and> (\<forall>z \<in> book_orders (order_book s'). order_id z \<noteq> order_id y))
             \<and> book_ok (order_book s')"
    if cr: "sell_crosses (order_book s) x"
  proof -
    from sell_crosses_level [OF ok cr] obtain bb y rest where
      bb: "best_bid (order_book s) = Some bb" and lv: "bids (order_book s) bb = Some (y # rest)"
      and lev: "level (bids (order_book s)) (best_bid (order_book s)) = y # rest"
      and rx: "0 < remaining_quantity x" by blast
    define q where "q = min (remaining_quantity x) (remaining_quantity y)"
    define t where "t = fst (Trade_create bb q y x (Trade_objects s))"
    have qx: "q \<le> remaining_quantity x" and qy: "q \<le> remaining_quantity y"
      by (simp_all add: q_def)
    from match_sell_fill_ok [OF ok bb lv q_def, of tr] obtain s' where
      f: "match_sell_fill s x y rest tr = (None, s', after_trade q bb x, tr @ [t])"
      and asks: "asks (order_book s') = asks (order_book s)"
      and bids: "bids (order_book s') =
                  (if remaining_quantity y = q
                   then (if rest = [] then (bids (order_book s))(bb := None)
                         else (bids (order_book s))(bb \<mapsto> rest))
                   else (bids (order_book s))(bb \<mapsto> after_trade q bb y # rest))"
      and lk: "order_lookup (order_book s') =
                (if remaining_quantity y = q then (order_lookup (order_book s))(order_id y := None)
                 else order_lookup (order_book s))"
      unfolding t_def by blast
    have ok': "book_ok (order_book s')" using match_sell_fill_inv(1) [OF ok bb lv rx f] .
    have unf: "match_sell_order s x tr = match_sell_order s' (after_trade q bb x) (tr @ [t])"
      by (subst match_sell_order.simps) (simp add: cr lev f)
    have py: "price y = bb" using levels_okD(5) [OF okb lv] by simp
    have tf: "Trade.quantity t = q" "Trade.price t = price y" "ask_order t = order_id x"
      "bid_order t = order_id y"
      by (simp_all add: t_def Trade_create_fields py)
    have rem: "remaining_quantity (after_trade q bb x) = remaining_quantity x - q"
      "remaining_quantity (after_trade q bb y) = remaining_quantity y - q"
      using after_trade_fields(6) [OF qx] after_trade_fields(6) [OF qy] by simp_all
    have gone: "order_lookup (order_book s') (order_id y) = None
                   \<and> (\<forall>z \<in> book_orders (order_book s'). order_id z \<noteq> order_id y)"
      if "remaining_quantity y = q"
    proof -
      have n: "order_lookup (order_book s') (order_id y) = None" using lk that by simp
      then show ?thesis using book_orders_lookup [OF ok'] by metis
    qed
    show ?thesis
      using bb lv q_def tf unf rem bids asks gone ok' by blast
  qed
  from c1 c2 c3 show ?thesis by blast
qed


end
